theory Spec2Isabelle
  imports Main "HOL-Library.AList"
begin

section \<open>The settings registry of QGIS: entries and the settings tree\<close>

text \<open>
  The development embeds two headers of the QGIS core:
  \<^verbatim>\<open>src/core/settings/qgssettingsentry.h\<close> (the entry base class and the two typed
  templates \<^verbatim>\<open>QgsSettingsEntryByReference<T>\<close> and \<^verbatim>\<open>QgsSettingsEntryByValue<T>\<close>, whose
  member functions are defined inline) and \<^verbatim>\<open>src/core/settings/qgssettingstreenode.h\<close>
  (the tree node classes, declared there and implemented elsewhere).

  A \<^verbatim>\<open>QString\<close> is a \<open>string\<close>, a \<^verbatim>\<open>QStringList\<close> a \<open>string list\<close>. An exception is the
  \<open>Inl\<close> branch of a sum. The backing store, which the C++ reaches through temporaries
  of \<^verbatim>\<open>QgsSettings\<close>, is an explicit argument, and a function that writes returns the
  new store.
\<close>

subsection \<open>Values, errors and the backing store\<close>

text \<open>
  \<^verbatim>\<open>QVariant\<close> belongs to Qt. The kinds listed are the ones the settings entries of the
  registry marshal; \<open>Invalid\<close> is the default-constructed \<^verbatim>\<open>QVariant()\<close>.
\<close>

datatype variant =
    Invalid
  | VBool bool
  | VInt int
  | VString string
  | VStringList "string list"

text \<open>
  Both headers announce one exception class, \<^verbatim>\<open>QgsSettingsException\<close>. The reason tells
  the structural errors apart. \<open>DanglingNode\<close> is not an exception of the program: it is
  the outcome of the model for a node handle that names no node of the arena, where the
  C++ would dereference an invalid pointer.
\<close>

datatype reason = DuplicateKey | KindMismatch | ArityMismatch

datatype error = QgsSettingsException reason | DanglingNode

text \<open>
  Modelled from the spec: the persistent store \<^verbatim>\<open>QgsSettings\<close> is outside both headers.
  The spec assumes it as a capability: \<^verbatim>\<open>get(key) -> optional<value>\<close>,
  \<^verbatim>\<open>set(key, value) -> bool\<close>, \<^verbatim>\<open>remove(key)\<close>, \<^verbatim>\<open>exists(key) -> bool\<close>. Here it is an
  association list from complete keys to variants, and every write succeeds.
\<close>

type_synonym QgsSettings = "(string \<times> variant) list"

definition settingsGet :: "QgsSettings \<Rightarrow> string \<Rightarrow> variant option" where
  "settingsGet s k = map_of s k"

definition settingsContains :: "QgsSettings \<Rightarrow> string \<Rightarrow> bool" where
  "settingsContains s k = (settingsGet s k \<noteq> None)"

definition settingsSet :: "QgsSettings \<Rightarrow> string \<Rightarrow> variant \<Rightarrow> bool \<times> QgsSettings" where
  "settingsSet s k v = (True, AList.update k v s)"

definition settingsRemove :: "QgsSettings \<Rightarrow> string \<Rightarrow> QgsSettings" where
  "settingsRemove s k = AList.delete k s"

subsection \<open>Keys with placeholders\<close>

text \<open>
  Modelled from the spec: key strings use the separator \<^verbatim>\<open>/\<close> and positional
  placeholders \<^verbatim>\<open>%1\<close>, \<^verbatim>\<open>%2\<close>, ... for the dynamic segments. Filling a key replaces
  placeholder \<^verbatim>\<open>%i\<close> by the i-th supplied item, for each supplied item in turn.
\<close>

definition digit :: "nat \<Rightarrow> char" where
  "digit d = ''0123456789'' ! (d mod 10)"

fun decimal :: "nat \<Rightarrow> string" where
  "decimal n = (if n < 10 then [digit n] else decimal (n div 10) @ [digit (n mod 10)])"

declare decimal.simps [simp del]

definition placeholder :: "nat \<Rightarrow> string" where
  "placeholder i = CHR ''%'' # decimal i"

definition startsWith :: "string \<Rightarrow> string \<Rightarrow> bool" where
  "startsWith s p = (take (length p) s = p)"

function replaceAll :: "string \<Rightarrow> string \<Rightarrow> string \<Rightarrow> string" where
  "replaceAll pat rep [] = []"
| "replaceAll pat rep (c # cs) =
     (if pat \<noteq> [] \<and> startsWith (c # cs) pat
      then rep @ replaceAll pat rep (drop (length pat) (c # cs))
      else c # replaceAll pat rep cs)"
  by pat_completeness auto
termination
  by (relation "measure (\<lambda>(pat, rep, s). length s)") (auto simp: neq_Nil_conv)

fun fillFrom :: "nat \<Rightarrow> string list \<Rightarrow> string \<Rightarrow> string" where
  "fillFrom i [] k = k"
| "fillFrom i (item # items) k = fillFrom (Suc i) items (replaceAll (placeholder i) item k)"

definition fillPlaceholders :: "string \<Rightarrow> string list \<Rightarrow> string" where
  "fillPlaceholders k items = fillFrom 1 items k"

definition isDigit :: "char \<Rightarrow> bool" where
  "isDigit c = (c \<in> set ''0123456789'')"

fun containsPlaceholder :: "string \<Rightarrow> bool" where
  "containsPlaceholder (c # d # cs) =
     ((c = CHR ''%'' \<and> isDigit d) \<or> containsPlaceholder (d # cs))"
| "containsPlaceholder _ = False"

subsection \<open>QgsSettingsEntryBase\<close>

text \<open>
  \<^verbatim>\<open>Qgis::SettingsOptions\<close> is a flag set declared in \<^verbatim>\<open>qgis.h\<close>. Modelled from the spec:
  the one flag the entries read enables the former-value migration.
\<close>

datatype SettingsOption = SaveFormerValue

text \<open>
  The private members of \<^verbatim>\<open>QgsSettingsEntryBase\<close>. The parent is a handle into the arena of
  tree nodes (\<open>None\<close> is \<^verbatim>\<open>nullptr\<close>).
\<close>

record QgsSettingsEntryBase =
  mParentTreeElement :: "nat option"
  mKey :: string
  mDefaultValue :: variant
  mDescription :: string
  mOptions :: "SettingsOption set"

text \<open>
  The section constructor is inline in the header: the key is
  \<^verbatim>\<open>QStringLiteral( "%1/%2" ).arg( section, key )\<close>, and no parent is set.
\<close>

definition QgsSettingsEntryBase_section ::
  "string \<Rightarrow> string \<Rightarrow> variant \<Rightarrow> string \<Rightarrow> SettingsOption set \<Rightarrow> QgsSettingsEntryBase" where
  "QgsSettingsEntryBase_section key section defaultValue description options =
     \<lparr> mParentTreeElement = None,
       mKey = section @ ''/'' @ key,
       mDefaultValue = defaultValue,
       mDescription = description,
       mOptions = options \<rparr>"

text \<open>
  Modelled from the spec: the member functions of \<^verbatim>\<open>QgsSettingsEntryBase\<close> below are only
  declared in the header. The definition key is the key with all its placeholders; an
  entry has a dynamic key iff the definition key contains a placeholder. Resolving the
  key substitutes the supplied dynamic parts; the arity of the supplied parts must match
  what \<open>hasDynamicKey\<close> expects, or the resolution fails with the structural error.
  A \<^verbatim>\<open>QString\<close> argument with the default \<^verbatim>\<open>QString()\<close> is a \<open>string option\<close>, \<open>None\<close> the
  null string, which \<open>dynamicKeyPartToList\<close> turns into the empty list.
\<close>

definition dynamicKeyPartToList :: "string option \<Rightarrow> string list" where
  "dynamicKeyPartToList dynamicKeyPart =
     (case dynamicKeyPart of None \<Rightarrow> [] | Some p \<Rightarrow> [p])"

definition definitionKey :: "'z QgsSettingsEntryBase_scheme \<Rightarrow> string" where
  "definitionKey e = mKey e"

definition hasDynamicKey :: "'z QgsSettingsEntryBase_scheme \<Rightarrow> bool" where
  "hasDynamicKey e = containsPlaceholder (definitionKey e)"

definition completeKeyPrivate ::
  "'z QgsSettingsEntryBase_scheme \<Rightarrow> string \<Rightarrow> string list \<Rightarrow> error + string" where
  "completeKeyPrivate e k dynamicKeyPartList =
     (if hasDynamicKey e = (dynamicKeyPartList \<noteq> [])
      then Inr (fillPlaceholders k dynamicKeyPartList)
      else Inl (QgsSettingsException ArityMismatch))"

definition key :: "'z QgsSettingsEntryBase_scheme \<Rightarrow> string list \<Rightarrow> error + string" where
  "key e dynamicKeyPartList = completeKeyPrivate e (mKey e) dynamicKeyPartList"

text \<open>
  Modelled from the spec: \<open>exists\<close> and \<open>remove\<close> pass through to the backing store at the
  resolved key.
\<close>

definition exists :: "'z QgsSettingsEntryBase_scheme \<Rightarrow> QgsSettings \<Rightarrow> string list \<Rightarrow> error + bool" where
  "exists e s dynamicKeyPartList =
     (case key e dynamicKeyPartList of
        Inl x \<Rightarrow> Inl x
      | Inr k \<Rightarrow> Inr (settingsContains s k))"

definition remove :: "'z QgsSettingsEntryBase_scheme \<Rightarrow> QgsSettings \<Rightarrow> string list \<Rightarrow> error + QgsSettings" where
  "remove e s dynamicKeyPartList =
     (case key e dynamicKeyPartList of
        Inl x \<Rightarrow> Inl x
      | Inr k \<Rightarrow> Inr (settingsRemove s k))"

text \<open>
  Modelled from the spec: the variant accessors resolve the full key, read the backing
  store and return the stored value if present, else the default; the write stores the
  variant at the resolved key and returns whether the write occurred.
\<close>

definition defaultValueAsVariant :: "'z QgsSettingsEntryBase_scheme \<Rightarrow> variant" where
  "defaultValueAsVariant e = mDefaultValue e"

definition valueAsVariant ::
  "'z QgsSettingsEntryBase_scheme \<Rightarrow> QgsSettings \<Rightarrow> string list \<Rightarrow> error + variant" where
  "valueAsVariant e s dynamicKeyPartList =
     (case key e dynamicKeyPartList of
        Inl x \<Rightarrow> Inl x
      | Inr k \<Rightarrow>
          Inr (case settingsGet s k of Some v \<Rightarrow> v | None \<Rightarrow> mDefaultValue e))"

definition setVariantValuePrivate ::
  "'z QgsSettingsEntryBase_scheme \<Rightarrow> QgsSettings \<Rightarrow> variant \<Rightarrow> string list
     \<Rightarrow> error + bool \<times> QgsSettings" where
  "setVariantValuePrivate e s v dynamicKeyPartList =
     (case key e dynamicKeyPartList of
        Inl x \<Rightarrow> Inl x
      | Inr k \<Rightarrow> Inr (settingsSet s k v))"

text \<open>
  Modelled from the spec and from the documentation of \<open>formerValueAsVariant\<close> in the
  header: with the migration enabled in the options, the former value is read from a
  second key derived from the current key; when there is no former value the result is
  the current value (or the default).
\<close>

definition formerValuekey ::
  "'z QgsSettingsEntryBase_scheme \<Rightarrow> string list \<Rightarrow> error + string" where
  "formerValuekey e dynamicKeyPartList =
     (case key e dynamicKeyPartList of
        Inl x \<Rightarrow> Inl x
      | Inr k \<Rightarrow> Inr (k @ ''_formervalue''))"

definition formerValueAsVariant ::
  "'z QgsSettingsEntryBase_scheme \<Rightarrow> QgsSettings \<Rightarrow> string list \<Rightarrow> error + variant" where
  "formerValueAsVariant e s dynamicKeyPartList =
     (case formerValuekey e dynamicKeyPartList of
        Inl x \<Rightarrow> Inl x
      | Inr fk \<Rightarrow>
          (case (if SaveFormerValue \<in> mOptions e then settingsGet s fk else None) of
             Some v \<Rightarrow> Inr v
           | None \<Rightarrow> valueAsVariant e s dynamicKeyPartList))"

text \<open>
  Modelled from the spec: the overloads of the base class that take one \<^verbatim>\<open>QString\<close> are
  only declared in the header as well. They are the list versions, applied to the list
  that \<open>dynamicKeyPartToList\<close> makes of the part.
\<close>

definition exists_part ::
  "'z QgsSettingsEntryBase_scheme \<Rightarrow> QgsSettings \<Rightarrow> string option \<Rightarrow> error + bool" where
  "exists_part e s dynamicKeyPart = exists e s (dynamicKeyPartToList dynamicKeyPart)"

definition valueAsVariant_part ::
  "'z QgsSettingsEntryBase_scheme \<Rightarrow> QgsSettings \<Rightarrow> string option \<Rightarrow> error + variant" where
  "valueAsVariant_part e s dynamicKeyPart =
     valueAsVariant e s (dynamicKeyPartToList dynamicKeyPart)"

definition formerValueAsVariant_part ::
  "'z QgsSettingsEntryBase_scheme \<Rightarrow> QgsSettings \<Rightarrow> string option \<Rightarrow> error + variant" where
  "formerValueAsVariant_part e s dynamicKeyPart =
     formerValueAsVariant e s (dynamicKeyPartToList dynamicKeyPart)"

subsection \<open>The typed entries\<close>

text \<open>
  \<^verbatim>\<open>QgsSettingsEntryByReference<T>\<close> and \<^verbatim>\<open>QgsSettingsEntryByValue<T>\<close> add no data member
  to the base class; a concrete entry supplies the three virtual functions. The record
  extends the base with them, so that an entry of either template is a base entry
  together with its \<open>convertFromVariant\<close>, \<open>convertToVariant\<close> and \<open>checkValue\<close>. The
  constructors of both templates pass their arguments on to the base class, which stores
  the default as a variant (the by-reference ones receive it as a \<^verbatim>\<open>T\<close>, the by-value
  ones as a \<^verbatim>\<open>QVariant\<close>).
\<close>

record 'a QgsSettingsEntryTyped = QgsSettingsEntryBase +
  convertFromVariant :: "variant \<Rightarrow> 'a"
  convertToVariant :: "'a \<Rightarrow> variant"
  checkValue :: "'a \<Rightarrow> bool"

text \<open>The default \<open>checkValue\<close> of both templates accepts every value.\<close>

definition checkValue_default :: "'a \<Rightarrow> bool" where
  "checkValue_default v = True"

subsubsection \<open>QgsSettingsEntryByReference\<close>

text \<open>
  The functions that take a \<^verbatim>\<open>QStringList\<close> keep the name of the member function; the
  overload that takes one \<^verbatim>\<open>QString\<close> has the suffix \<open>_part\<close>. The deprecated overloads
  with \<^verbatim>\<open>useDefaultValueOverride\<close> are left out.
\<close>

definition ByReference_value ::
  "'a QgsSettingsEntryTyped \<Rightarrow> QgsSettings \<Rightarrow> string list \<Rightarrow> error + 'a" where
  "ByReference_value e s dynamicKeyPartList =
     (case valueAsVariant e s dynamicKeyPartList of
        Inl x \<Rightarrow> Inl x
      | Inr v \<Rightarrow> Inr (convertFromVariant e v))"

definition ByReference_value_part ::
  "'a QgsSettingsEntryTyped \<Rightarrow> QgsSettings \<Rightarrow> string option \<Rightarrow> error + 'a" where
  "ByReference_value_part e s dynamicKeyPart =
     (case valueAsVariant_part e s dynamicKeyPart of
        Inl x \<Rightarrow> Inl x
      | Inr v \<Rightarrow> Inr (convertFromVariant e v))"

definition ByReference_valueWithDefaultOverride ::
  "'a QgsSettingsEntryTyped \<Rightarrow> QgsSettings \<Rightarrow> 'a \<Rightarrow> string list \<Rightarrow> error + 'a" where
  "ByReference_valueWithDefaultOverride e s defaultValueOverride dynamicKeyPartList =
     (case exists e s dynamicKeyPartList of
        Inl x \<Rightarrow> Inl x
      | Inr b \<Rightarrow>
          if b then ByReference_value e s dynamicKeyPartList
          else Inr defaultValueOverride)"

definition ByReference_valueWithDefaultOverride_part ::
  "'a QgsSettingsEntryTyped \<Rightarrow> QgsSettings \<Rightarrow> 'a \<Rightarrow> string option \<Rightarrow> error + 'a" where
  "ByReference_valueWithDefaultOverride_part e s defaultValueOverride dynamicKeyPart =
     (case exists_part e s dynamicKeyPart of
        Inl x \<Rightarrow> Inl x
      | Inr b \<Rightarrow>
          if b then ByReference_value_part e s dynamicKeyPart
          else Inr defaultValueOverride)"

definition ByReference_setValuePrivate ::
  "'a QgsSettingsEntryTyped \<Rightarrow> QgsSettings \<Rightarrow> 'a \<Rightarrow> string list \<Rightarrow> error + bool \<times> QgsSettings" where
  "ByReference_setValuePrivate e s v dynamicKeyPartList =
     (if checkValue e v
      then setVariantValuePrivate e s (convertToVariant e v) dynamicKeyPartList
      else Inr (False, s))"

definition ByReference_setValue ::
  "'a QgsSettingsEntryTyped \<Rightarrow> QgsSettings \<Rightarrow> 'a \<Rightarrow> string list \<Rightarrow> error + bool \<times> QgsSettings" where
  "ByReference_setValue e s v dynamicKeyPartList =
     ByReference_setValuePrivate e s v dynamicKeyPartList"

definition ByReference_setValue_part ::
  "'a QgsSettingsEntryTyped \<Rightarrow> QgsSettings \<Rightarrow> 'a \<Rightarrow> string option \<Rightarrow> error + bool \<times> QgsSettings" where
  "ByReference_setValue_part e s v dynamicKeyPart =
     ByReference_setValuePrivate e s v (dynamicKeyPartToList dynamicKeyPart)"

definition ByReference_defaultValue :: "'a QgsSettingsEntryTyped \<Rightarrow> 'a" where
  "ByReference_defaultValue e = convertFromVariant e (defaultValueAsVariant e)"

definition ByReference_formerValue ::
  "'a QgsSettingsEntryTyped \<Rightarrow> QgsSettings \<Rightarrow> string list \<Rightarrow> error + 'a" where
  "ByReference_formerValue e s dynamicKeyPartList =
     (case formerValueAsVariant e s dynamicKeyPartList of
        Inl x \<Rightarrow> Inl x
      | Inr v \<Rightarrow> Inr (convertFromVariant e v))"

definition ByReference_formerValue_part ::
  "'a QgsSettingsEntryTyped \<Rightarrow> QgsSettings \<Rightarrow> string option \<Rightarrow> error + 'a" where
  "ByReference_formerValue_part e s dynamicKeyPart =
     (case formerValueAsVariant_part e s dynamicKeyPart of
        Inl x \<Rightarrow> Inl x
      | Inr v \<Rightarrow> Inr (convertFromVariant e v))"

subsubsection \<open>QgsSettingsEntryByValue\<close>

definition ByValue_value ::
  "'a QgsSettingsEntryTyped \<Rightarrow> QgsSettings \<Rightarrow> string list \<Rightarrow> error + 'a" where
  "ByValue_value e s dynamicKeyPartList =
     (case valueAsVariant e s dynamicKeyPartList of
        Inl x \<Rightarrow> Inl x
      | Inr v \<Rightarrow> Inr (convertFromVariant e v))"

definition ByValue_value_part ::
  "'a QgsSettingsEntryTyped \<Rightarrow> QgsSettings \<Rightarrow> string option \<Rightarrow> error + 'a" where
  "ByValue_value_part e s dynamicKeyPart =
     (case valueAsVariant_part e s dynamicKeyPart of
        Inl x \<Rightarrow> Inl x
      | Inr v \<Rightarrow> Inr (convertFromVariant e v))"

definition ByValue_valueWithDefaultOverride ::
  "'a QgsSettingsEntryTyped \<Rightarrow> QgsSettings \<Rightarrow> 'a \<Rightarrow> string list \<Rightarrow> error + 'a" where
  "ByValue_valueWithDefaultOverride e s defaultValueOverride dynamicKeyPartList =
     (case exists e s dynamicKeyPartList of
        Inl x \<Rightarrow> Inl x
      | Inr b \<Rightarrow>
          if b then ByValue_value e s dynamicKeyPartList
          else Inr defaultValueOverride)"

definition ByValue_valueWithDefaultOverride_part ::
  "'a QgsSettingsEntryTyped \<Rightarrow> QgsSettings \<Rightarrow> 'a \<Rightarrow> string option \<Rightarrow> error + 'a" where
  "ByValue_valueWithDefaultOverride_part e s defaultValueOverride dynamicKeyPart =
     (case exists_part e s dynamicKeyPart of
        Inl x \<Rightarrow> Inl x
      | Inr b \<Rightarrow>
          if b then ByValue_value_part e s dynamicKeyPart
          else Inr defaultValueOverride)"

definition ByValue_setValuePrivate ::
  "'a QgsSettingsEntryTyped \<Rightarrow> QgsSettings \<Rightarrow> 'a \<Rightarrow> string list \<Rightarrow> error + bool \<times> QgsSettings" where
  "ByValue_setValuePrivate e s v dynamicKeyPartList =
     (if checkValue e v
      then setVariantValuePrivate e s (convertToVariant e v) dynamicKeyPartList
      else Inr (False, s))"

definition ByValue_setValue ::
  "'a QgsSettingsEntryTyped \<Rightarrow> QgsSettings \<Rightarrow> 'a \<Rightarrow> string list \<Rightarrow> error + bool \<times> QgsSettings" where
  "ByValue_setValue e s v dynamicKeyPartList =
     ByValue_setValuePrivate e s v dynamicKeyPartList"

definition ByValue_setValue_part ::
  "'a QgsSettingsEntryTyped \<Rightarrow> QgsSettings \<Rightarrow> 'a \<Rightarrow> string option \<Rightarrow> error + bool \<times> QgsSettings" where
  "ByValue_setValue_part e s v dynamicKeyPart =
     ByValue_setValuePrivate e s v (dynamicKeyPartToList dynamicKeyPart)"

definition ByValue_defaultValue :: "'a QgsSettingsEntryTyped \<Rightarrow> 'a" where
  "ByValue_defaultValue e = convertFromVariant e (defaultValueAsVariant e)"

definition ByValue_formerValue ::
  "'a QgsSettingsEntryTyped \<Rightarrow> QgsSettings \<Rightarrow> string list \<Rightarrow> error + 'a" where
  "ByValue_formerValue e s dynamicKeyPartList =
     (case formerValueAsVariant e s dynamicKeyPartList of
        Inl x \<Rightarrow> Inl x
      | Inr v \<Rightarrow> Inr (convertFromVariant e v))"

definition ByValue_formerValue_part ::
  "'a QgsSettingsEntryTyped \<Rightarrow> QgsSettings \<Rightarrow> string option \<Rightarrow> error + 'a" where
  "ByValue_formerValue_part e s dynamicKeyPart =
     (case formerValueAsVariant_part e s dynamicKeyPart of
        Inl x \<Rightarrow> Inl x
      | Inr v \<Rightarrow> Inr (convertFromVariant e v))"

text \<open>
  A concrete entry class is a base entry together with its three virtual functions.
\<close>

definition typedEntry ::
  "QgsSettingsEntryBase \<Rightarrow> (variant \<Rightarrow> 'a) \<Rightarrow> ('a \<Rightarrow> variant) \<Rightarrow> ('a \<Rightarrow> bool)
     \<Rightarrow> 'a QgsSettingsEntryTyped" where
  "typedEntry b fromVariant toVariant check =
     \<lparr> mParentTreeElement = mParentTreeElement b,
       mKey = mKey b,
       mDefaultValue = mDefaultValue b,
       mDescription = mDescription b,
       mOptions = mOptions b,
       convertFromVariant = fromVariant,
       convertToVariant = toVariant,
       checkValue = check \<rparr>"

subsection \<open>QgsSettingsTreeNode and QgsSettingsTreeNamedListNode\<close>

datatype Type = Root | Standard | NamedList

datatype Option = NamedListSelectedItemSetting

text \<open>
  The data members of \<^verbatim>\<open>QgsSettingsTreeNode\<close>, followed by the three that
  \<^verbatim>\<open>QgsSettingsTreeNamedListNode\<close> adds (they keep their initial values in a node of
  another type). Nodes live in an arena, a list indexed by handles: a pointer to a node
  is its index, \<open>mParent\<close> and \<open>mChildrenNodes\<close> hold handles, and a new node is appended.
  The node's \<^verbatim>\<open>mKey\<close> and the named list's \<^verbatim>\<open>mOptions\<close> are \<open>mNodeKey\<close> and \<open>mListOptions\<close>
  here, since the entry record has fields of the same names. Each registered entry is
  kept with the local key it was registered under. \<^verbatim>\<open>mNamedNodesCount\<close> is an \<^verbatim>\<open>int\<close>; it
  is an unbounded integer here, the count being the depth of nesting of named lists.
\<close>

record QgsSettingsTreeNode =
  mType :: Type
  mChildrenNodes :: "nat list"
  mChildrenSettings :: "(string \<times> QgsSettingsEntryBase) list"
  mParent :: "nat option"
  mNodeKey :: string
  mCompleteKey :: string
  mNamedNodesCount :: int
  mListOptions :: "Option set"
  mSelectedItemSetting :: "QgsSettingsEntryBase option"
  mItemsCompleteKey :: string

type_synonym tree = "QgsSettingsTreeNode list"

definition nodeAt :: "tree \<Rightarrow> nat \<Rightarrow> QgsSettingsTreeNode option" where
  "nodeAt t i = (if i < length t then Some (t ! i) else None)"

text \<open>
  The default-constructed node, from the member initialisers of the header:
  \<^verbatim>\<open>mType = Type::Root\<close>, \<^verbatim>\<open>mParent = nullptr\<close>, \<^verbatim>\<open>mNamedNodesCount = 0\<close>, empty lists and
  strings.
\<close>

definition defaultNode :: QgsSettingsTreeNode where
  "defaultNode =
     \<lparr> mType = Root, mChildrenNodes = [], mChildrenSettings = [], mParent = None,
       mNodeKey = [], mCompleteKey = [], mNamedNodesCount = 0,
       mListOptions = {}, mSelectedItemSetting = None, mItemsCompleteKey = [] \<rparr>"

text \<open>
  Modelled from the spec: the member functions of the two node classes are only declared
  in the header. \<open>createRootNode\<close> gives a node with no parent and type \<open>Root\<close>; any
  number of root nodes may exist. \<open>childNode\<close> and \<open>childSetting\<close> look a child up by
  its local key, and absence is the normal outcome \<open>None\<close>.
\<close>

definition createRootNode :: "tree \<Rightarrow> tree \<times> nat" where
  "createRootNode t = (t @ [defaultNode\<lparr> mType := Root, mNodeKey := [] \<rparr>], length t)"

definition hasKey :: "tree \<Rightarrow> string \<Rightarrow> nat \<Rightarrow> bool" where
  "hasKey t k c = (case nodeAt t c of None \<Rightarrow> False | Some cn \<Rightarrow> mNodeKey cn = k)"

definition childNode :: "tree \<Rightarrow> nat \<Rightarrow> string \<Rightarrow> nat option" where
  "childNode t p k =
     (case nodeAt t p of
        None \<Rightarrow> None
      | Some n \<Rightarrow> find (hasKey t k) (mChildrenNodes n))"

definition childSetting :: "tree \<Rightarrow> nat \<Rightarrow> string \<Rightarrow> QgsSettingsEntryBase option" where
  "childSetting t p k =
     (case nodeAt t p of
        None \<Rightarrow> None
      | Some n \<Rightarrow> map_of (mChildrenSettings n) k)"

text \<open>
  Modelled from the spec: the complete key of a node is built once, at creation, from
  the cached complete key of the parent and the local key, with the separator after
  each segment; \<open>namedNodesCount\<close> is the parent's, plus one in a named list node, whose
  complete key ends with the placeholder of that number. \<open>itemsCompleteKey\<close> is the
  prefix before the node's own placeholder. With the option for the selected item, the
  named list node constructs the companion string entry, with no parent node and with
  the placeholders of the list's parents only.
\<close>

definition init :: "QgsSettingsTreeNode \<Rightarrow> nat \<Rightarrow> QgsSettingsTreeNode \<Rightarrow> string \<Rightarrow> QgsSettingsTreeNode" where
  "init te p parent k =
     te\<lparr> mParent := Some p,
         mNodeKey := k,
         mCompleteKey := mCompleteKey parent @ k @ ''/'',
         mNamedNodesCount := mNamedNodesCount parent \<rparr>"

definition selectedItemEntry :: "string \<Rightarrow> QgsSettingsEntryBase" where
  "selectedItemEntry k =
     \<lparr> mParentTreeElement = None, mKey = k, mDefaultValue = VString [],
       mDescription = [], mOptions = {} \<rparr>"

definition initNamedList :: "QgsSettingsTreeNode \<Rightarrow> Option set \<Rightarrow> QgsSettingsTreeNode" where
  "initNamedList te options =
     te\<lparr> mListOptions := options,
         mSelectedItemSetting :=
           (if NamedListSelectedItemSetting \<in> options
            then Some (selectedItemEntry (mCompleteKey te @ ''selected''))
            else None),
         mNamedNodesCount := mNamedNodesCount te + 1,
         mItemsCompleteKey := mCompleteKey te,
         mCompleteKey :=
           mCompleteKey te @ placeholder (nat (mNamedNodesCount te + 1)) @ ''/'' \<rparr>"

definition registerChildNode :: "tree \<Rightarrow> nat \<Rightarrow> nat \<Rightarrow> tree" where
  "registerChildNode t p c =
     (case nodeAt t p of
        None \<Rightarrow> t
      | Some n \<Rightarrow> t[p := n\<lparr> mChildrenNodes := mChildrenNodes n @ [c] \<rparr>])"

text \<open>
  Modelled from the spec: \<open>createChildNode\<close> returns the existing child if the key
  already names a Standard node at this parent, and otherwise creates and registers one;
  it fails if the key names something of a different kind (a named list node or an
  entry). \<open>createNamedListNode\<close> does the same for the type \<open>NamedList\<close>.
\<close>

definition createChildNode :: "tree \<Rightarrow> nat \<Rightarrow> string \<Rightarrow> error + tree \<times> nat" where
  "createChildNode t p k =
     (case nodeAt t p of
        None \<Rightarrow> Inl DanglingNode
      | Some n \<Rightarrow>
          (case childNode t p k of
             Some c \<Rightarrow>
               if map_option mType (nodeAt t c) = Some Standard then Inr (t, c)
               else Inl (QgsSettingsException KindMismatch)
           | None \<Rightarrow>
               if childSetting t p k \<noteq> None then Inl (QgsSettingsException DuplicateKey)
               else
                 let te = init (defaultNode\<lparr> mType := Standard \<rparr>) p n k
                 in Inr (registerChildNode (t @ [te]) p (length t), length t)))"

definition createNamedListNode ::
  "tree \<Rightarrow> nat \<Rightarrow> string \<Rightarrow> Option set \<Rightarrow> error + tree \<times> nat" where
  "createNamedListNode t p k options =
     (case nodeAt t p of
        None \<Rightarrow> Inl DanglingNode
      | Some n \<Rightarrow>
          (case childNode t p k of
             Some c \<Rightarrow>
               if map_option mType (nodeAt t c) = Some NamedList then Inr (t, c)
               else Inl (QgsSettingsException KindMismatch)
           | None \<Rightarrow>
               if childSetting t p k \<noteq> None then Inl (QgsSettingsException DuplicateKey)
               else
                 let te = initNamedList (init (defaultNode\<lparr> mType := NamedList \<rparr>) p n k) options
                 in Inr (registerChildNode (t @ [te]) p (length t), length t)))"

text \<open>
  Modelled from the spec: \<open>registerChildSetting\<close> inserts the entry into the children
  settings and fails if the key collides with an existing child node or entry at this
  level. The constructor of an entry with a parent node reuses the parent's cached
  complete key and registers the entry into that node.
\<close>

definition registerChildSetting ::
  "tree \<Rightarrow> nat \<Rightarrow> QgsSettingsEntryBase \<Rightarrow> string \<Rightarrow> error + tree" where
  "registerChildSetting t p setting k =
     (case nodeAt t p of
        None \<Rightarrow> Inl DanglingNode
      | Some n \<Rightarrow>
          if childNode t p k \<noteq> None then Inl (QgsSettingsException DuplicateKey)
          else if childSetting t p k \<noteq> None then Inl (QgsSettingsException DuplicateKey)
          else Inr (t[p := n\<lparr> mChildrenSettings := mChildrenSettings n @ [(k, setting)] \<rparr>]))"

definition QgsSettingsEntryBase_parent ::
  "tree \<Rightarrow> string \<Rightarrow> nat \<Rightarrow> variant \<Rightarrow> string \<Rightarrow> SettingsOption set
     \<Rightarrow> error + tree \<times> QgsSettingsEntryBase" where
  "QgsSettingsEntryBase_parent t k parentTreeElement defaultValue description options =
     (case nodeAt t parentTreeElement of
        None \<Rightarrow> Inl DanglingNode
      | Some n \<Rightarrow>
          let e = \<lparr> mParentTreeElement = Some parentTreeElement,
                    mKey = mCompleteKey n @ k,
                    mDefaultValue = defaultValue,
                    mDescription = description,
                    mOptions = options \<rparr>
          in (case registerChildSetting t parentTreeElement e k of
                Inl x \<Rightarrow> Inl x
              | Inr t' \<Rightarrow> Inr (t', e)))"

text \<open>
  Modelled from the spec: \<open>items\<close> fails unless the number of parent named items is
  \<open>namedNodesCount - 1\<close>. Otherwise it asks the backing store for the stored keys that
  match \<open>itemsCompleteKey\<close>, with the parents' items substituted for the outer
  placeholders and a wildcard for the node's own placeholder, and returns the distinct
  captures of the wildcard (the segment up to the next separator).
\<close>

definition completeKeyWithNamedItems :: "string \<Rightarrow> string list \<Rightarrow> string" where
  "completeKeyWithNamedItems k namedItems = fillPlaceholders k namedItems"

definition keysMatching :: "QgsSettings \<Rightarrow> string \<Rightarrow> string list" where
  "keysMatching s prefix = filter (\<lambda>k. startsWith k prefix) (map fst s)"

definition capture :: "string \<Rightarrow> string \<Rightarrow> string" where
  "capture prefix k = takeWhile (\<lambda>c. c \<noteq> CHR ''/'') (drop (length prefix) k)"

definition existingItems :: "QgsSettingsTreeNode \<Rightarrow> QgsSettings \<Rightarrow> string list \<Rightarrow> string list" where
  "existingItems n s parentsNamedItems =
     (let prefix = completeKeyWithNamedItems (mItemsCompleteKey n) parentsNamedItems
      in remdups (map (capture prefix) (keysMatching s prefix)))"

definition items :: "QgsSettingsTreeNode \<Rightarrow> QgsSettings \<Rightarrow> string list \<Rightarrow> error + string list" where
  "items n s parentsNamedItems =
     (if mNamedNodesCount n - 1 \<noteq> int (length parentsNamedItems)
      then Inl (QgsSettingsException ArityMismatch)
      else Inr (existingItems n s parentsNamedItems))"

text \<open>
  The trees that the three creating functions build, starting from the empty arena.
\<close>

inductive reachable :: "tree \<Rightarrow> bool" where
  reachable_empty: "reachable []"
| reachable_root: "reachable t \<Longrightarrow> reachable (fst (createRootNode t))"
| reachable_child: "reachable t \<Longrightarrow> createChildNode t p k = Inr (t', c) \<Longrightarrow> reachable t'"
| reachable_named:
    "reachable t \<Longrightarrow> createNamedListNode t p k options = Inr (t', c) \<Longrightarrow> reachable t'"

text \<open>
  The number of named list nodes on the path from a node up to its root, the node
  included. The path follows the parent handles; \<open>fuel\<close> bounds its length.
\<close>

fun namedOnPath :: "tree \<Rightarrow> nat \<Rightarrow> nat \<Rightarrow> int" where
  "namedOnPath t 0 i = 0"
| "namedOnPath t (Suc fuel) i =
     (case nodeAt t i of
        None \<Rightarrow> 0
      | Some n \<Rightarrow>
          (if mType n = NamedList then 1 else 0) +
          (case mParent n of None \<Rightarrow> 0 | Some p \<Rightarrow> namedOnPath t fuel p))"

text \<open>
  The invariant that the creating functions keep: a node without parent is a root with
  count 0; any other node has an older node as its parent, is not a root, and counts one
  more than its parent exactly when it is a named list.
\<close>

definition countInvariant :: "tree \<Rightarrow> bool" where
  "countInvariant t =
     (\<forall>i < length t.
        case mParent (t ! i) of
          None \<Rightarrow> mType (t ! i) = Root \<and> mNamedNodesCount (t ! i) = 0
        | Some p \<Rightarrow>
            p < i \<and> mType (t ! i) \<noteq> Root \<and>
            mNamedNodesCount (t ! i) =
              mNamedNodesCount (t ! p) + (if mType (t ! i) = NamedList then 1 else 0))"

subsection \<open>A scenario\<close>

text \<open>
  The scenario of the spec: a root, the Standard node \<^verbatim>\<open>network\<close> below it, the named list
  \<^verbatim>\<open>servers\<close> (with the selected item) below that, and the integer entry \<^verbatim>\<open>timeout\<close> with
  default 30 under the named list. The entry accepts the values that are not negative.
\<close>

definition intFromVariant :: "variant \<Rightarrow> int" where
  "intFromVariant v = (case v of VInt n \<Rightarrow> n | _ \<Rightarrow> 0)"

definition scenarioRoot :: tree where
  "scenarioRoot = fst (createRootNode [])"

definition scenarioNetwork :: tree where
  "scenarioNetwork =
     (case createChildNode scenarioRoot 0 ''network'' of Inl x \<Rightarrow> [] | Inr (t, c) \<Rightarrow> t)"

definition scenarioServers :: tree where
  "scenarioServers =
     (case createNamedListNode scenarioNetwork 1 ''servers'' {NamedListSelectedItemSetting} of
        Inl x \<Rightarrow> []
      | Inr (t, c) \<Rightarrow> t)"

definition timeoutBase :: QgsSettingsEntryBase where
  "timeoutBase =
     \<lparr> mParentTreeElement = Some 2, mKey = ''network/servers/%1/timeout'',
       mDefaultValue = VInt 30, mDescription = [], mOptions = {SaveFormerValue} \<rparr>"

definition scenarioTree :: tree where
  "scenarioTree =
     (case QgsSettingsEntryBase_parent scenarioServers ''timeout'' 2 (VInt 30) []
             {SaveFormerValue} of
        Inl x \<Rightarrow> []
      | Inr (t, e) \<Rightarrow> t)"

definition timeoutEntry :: "int QgsSettingsEntryTyped" where
  "timeoutEntry = typedEntry timeoutBase intFromVariant VInt (\<lambda>n. 0 \<le> n)"

text \<open>
  An entry without dynamic key, made with the section constructor: the integer entry
  \<^verbatim>\<open>retries\<close> of the section \<^verbatim>\<open>network\<close>, with default 3.
\<close>

definition retriesEntry :: "int QgsSettingsEntryTyped" where
  "retriesEntry =
     typedEntry
       (QgsSettingsEntryBase_section ''retries'' ''network'' (VInt 3) [] {SaveFormerValue})
       intFromVariant VInt (\<lambda>n. 0 \<le> n)"

definition scenarioStore :: QgsSettings where
  "scenarioStore = [(''network/servers/prod/timeout'', VInt 45)]"

definition formerStore :: QgsSettings where
  "formerStore = [(''network/servers/prod/timeout_formervalue'', VInt 20)]"

section \<open>Properties of the entries\<close>

text \<open>
  C3: \<open>setValue\<close> first runs the \<open>checkValue\<close> gate. If \<open>checkValue\<close> rejects the value,
  \<open>setValue\<close> returns false and the store is the one it was given. Otherwise it converts
  the value and writes the variant at the resolved key, and returns true: the boolean
  says whether the write occurred. When the key does not resolve, the structural error is
  raised and there is no write. This holds for both templates and for both overloads of
  \<open>setValue\<close>: the one that takes the list of dynamic key parts and the one that takes a
  single part (\<open>None\<close> being the call without a part).
\<close>

theorem setValue_checkValue_gate:
  "(\<not> checkValue e v \<longrightarrow>
      ByReference_setValue e s v parts = Inr (False, s) \<and>
      ByValue_setValue e s v parts = Inr (False, s) \<and>
      ByReference_setValue_part e s v part = Inr (False, s) \<and>
      ByValue_setValue_part e s v part = Inr (False, s)) \<and>
   (checkValue e v \<longrightarrow> key e parts = Inr k \<longrightarrow>
      ByReference_setValue e s v parts = Inr (True, AList.update k (convertToVariant e v) s) \<and>
      ByValue_setValue e s v parts = Inr (True, AList.update k (convertToVariant e v) s) \<and>
      settingsGet (AList.update k (convertToVariant e v) s) k = Some (convertToVariant e v)) \<and>
   (checkValue e v \<longrightarrow> key e parts = Inl x \<longrightarrow>
      ByReference_setValue e s v parts = Inl x \<and>
      ByValue_setValue e s v parts = Inl x) \<and>
   (checkValue e v \<longrightarrow> key e (dynamicKeyPartToList part) = Inr kp \<longrightarrow>
      ByReference_setValue_part e s v part =
        Inr (True, AList.update kp (convertToVariant e v) s) \<and>
      ByValue_setValue_part e s v part =
        Inr (True, AList.update kp (convertToVariant e v) s) \<and>
      settingsGet (AList.update kp (convertToVariant e v) s) kp = Some (convertToVariant e v)) \<and>
   (checkValue e v \<longrightarrow> key e (dynamicKeyPartToList part) = Inl xp \<longrightarrow>
      ByReference_setValue_part e s v part = Inl xp \<and>
      ByValue_setValue_part e s v part = Inl xp)"
  by (simp add: ByReference_setValue_def ByReference_setValuePrivate_def
      ByValue_setValue_def ByValue_setValuePrivate_def
      ByReference_setValue_part_def ByValue_setValue_part_def setVariantValuePrivate_def
      settingsSet_def settingsGet_def update_conv')

theorem setValue_checkValue_gate_witness:
  "ByReference_setValue timeoutEntry [] (- 1) [''prod''] = Inr (False, []) \<and>
   ByReference_setValue timeoutEntry [] 45 [''prod''] = Inr (True, scenarioStore) \<and>
   ByReference_setValue timeoutEntry [] 45 [] = Inl (QgsSettingsException ArityMismatch) \<and>
   ByReference_setValue_part timeoutEntry [] (- 1) (Some ''prod'') = Inr (False, []) \<and>
   ByValue_setValue_part timeoutEntry [] (- 1) (Some ''prod'') = Inr (False, []) \<and>
   ByReference_setValue_part timeoutEntry [] 45 (Some ''prod'') = Inr (True, scenarioStore) \<and>
   ByValue_setValue_part timeoutEntry [] 45 (Some ''prod'') = Inr (True, scenarioStore) \<and>
   ByReference_setValue_part timeoutEntry [] 45 None =
     Inl (QgsSettingsException ArityMismatch) \<and>
   ByReference_setValue_part retriesEntry [] (- 1) None = Inr (False, []) \<and>
   ByReference_setValue_part retriesEntry [] 5 None =
     Inr (True, [(''network/retries'', VInt 5)])"
proof -
  have c1: "\<not> checkValue timeoutEntry (- 1)" by (simp add: timeoutEntry_def typedEntry_def)
  have c2: "checkValue timeoutEntry 45" by (simp add: timeoutEntry_def typedEntry_def)
  have c3: "\<not> checkValue retriesEntry (- 1)" by (simp add: retriesEntry_def typedEntry_def)
  have c4: "checkValue retriesEntry 5" by (simp add: retriesEntry_def typedEntry_def)
  have k1: "key timeoutEntry [''prod''] = Inr ''network/servers/prod/timeout''" by code_simp
  have k2: "key timeoutEntry [] = Inl (QgsSettingsException ArityMismatch)" by code_simp
  have k3: "key retriesEntry [] = Inr ''network/retries''" by code_simp
  have cv: "convertToVariant timeoutEntry 45 = VInt 45"
    by (simp add: timeoutEntry_def typedEntry_def)
  have cw: "convertToVariant retriesEntry 5 = VInt 5"
    by (simp add: retriesEntry_def typedEntry_def)
  from setValue_checkValue_gate
      [where e = timeoutEntry and v = "- 1" and s = "[]" and parts = "[''prod'']"
        and part = "Some ''prod''"]
    setValue_checkValue_gate
      [where e = timeoutEntry and v = 45 and s = "[]" and parts = "[''prod'']"
        and k = "''network/servers/prod/timeout''" and part = "Some ''prod''"
        and kp = "''network/servers/prod/timeout''"]
    setValue_checkValue_gate
      [where e = timeoutEntry and v = 45 and s = "[]" and parts = "[]"
        and x = "QgsSettingsException ArityMismatch" and part = None
        and xp = "QgsSettingsException ArityMismatch"]
    setValue_checkValue_gate [where e = retriesEntry and v = "- 1" and s = "[]" and part = None]
    setValue_checkValue_gate [where e = retriesEntry and v = 5 and s = "[]" and part = None
        and kp = "''network/retries''"]
  show ?thesis
    by (simp add: c1 c2 c3 c4 k1 k2 k3 cv cw scenarioStore_def dynamicKeyPartToList_def)
qed

text \<open>
  C10: \<open>valueWithDefaultOverride\<close> returns what \<open>value\<close> returns when \<open>exists\<close> is true
  for the dynamic key parts, and returns the override itself when \<open>exists\<close> is false: the
  default declared for the entry plays no part then. This holds for both overloads of
  both templates.
\<close>

theorem valueWithDefaultOverride_cases:
  "(exists e s parts = Inr True \<longrightarrow>
      ByReference_valueWithDefaultOverride e s d parts = ByReference_value e s parts \<and>
      ByValue_valueWithDefaultOverride e s d parts = ByValue_value e s parts) \<and>
   (exists e s parts = Inr False \<longrightarrow>
      ByReference_valueWithDefaultOverride e s d parts = Inr d \<and>
      ByValue_valueWithDefaultOverride e s d parts = Inr d) \<and>
   (exists_part e s part = Inr True \<longrightarrow>
      ByReference_valueWithDefaultOverride_part e s d part = ByReference_value_part e s part \<and>
      ByValue_valueWithDefaultOverride_part e s d part = ByValue_value_part e s part) \<and>
   (exists_part e s part = Inr False \<longrightarrow>
      ByReference_valueWithDefaultOverride_part e s d part = Inr d \<and>
      ByValue_valueWithDefaultOverride_part e s d part = Inr d)"
  by (simp add: ByReference_valueWithDefaultOverride_def ByValue_valueWithDefaultOverride_def
      ByReference_valueWithDefaultOverride_part_def ByValue_valueWithDefaultOverride_part_def)

theorem valueWithDefaultOverride_cases_witness:
  "ByReference_valueWithDefaultOverride timeoutEntry scenarioStore 7 [''prod''] = Inr 45 \<and>
   ByReference_valueWithDefaultOverride timeoutEntry scenarioStore 7 [''staging''] = Inr 7 \<and>
   ByValue_valueWithDefaultOverride_part timeoutEntry scenarioStore 7 (Some ''staging'') = Inr 7"
proof -
  have x1: "exists timeoutEntry scenarioStore [''prod''] = Inr True" by code_simp
  have x2: "exists timeoutEntry scenarioStore [''staging''] = Inr False" by code_simp
  have x3: "exists_part timeoutEntry scenarioStore (Some ''staging'') = Inr False"
    by code_simp
  have v: "ByReference_value timeoutEntry scenarioStore [''prod''] = Inr 45" by code_simp
  from valueWithDefaultOverride_cases
      [where e = timeoutEntry and s = scenarioStore and parts = "[''prod'']" and d = 7]
    valueWithDefaultOverride_cases
      [where e = timeoutEntry and s = scenarioStore and parts = "[''staging'']" and d = 7
        and part = "Some ''staging''"]
  show ?thesis by (simp add: x1 x2 x3 v)
qed

text \<open>
  C9: the two templates are observably equivalent. For the same entry (key, default,
  options, conversions and validation) and the same store, \<open>value\<close>, \<open>setValue\<close>,
  \<open>valueWithDefaultOverride\<close>, \<open>defaultValue\<close> and \<open>formerValue\<close> of
  \<^verbatim>\<open>QgsSettingsEntryByValue\<close> give the results, and the store, that those of
  \<^verbatim>\<open>QgsSettingsEntryByReference\<close> give.
\<close>

theorem ByValue_ByReference_equivalent:
  "ByValue_value e s parts = ByReference_value e s parts \<and>
   ByValue_value_part e s part = ByReference_value_part e s part \<and>
   ByValue_setValue e s v parts = ByReference_setValue e s v parts \<and>
   ByValue_setValue_part e s v part = ByReference_setValue_part e s v part \<and>
   ByValue_valueWithDefaultOverride e s d parts =
     ByReference_valueWithDefaultOverride e s d parts \<and>
   ByValue_valueWithDefaultOverride_part e s d part =
     ByReference_valueWithDefaultOverride_part e s d part \<and>
   ByValue_defaultValue e = ByReference_defaultValue e \<and>
   ByValue_formerValue e s parts = ByReference_formerValue e s parts \<and>
   ByValue_formerValue_part e s part = ByReference_formerValue_part e s part"
  unfolding ByValue_value_def ByReference_value_def ByValue_value_part_def
    ByReference_value_part_def ByValue_setValue_def ByReference_setValue_def
    ByValue_setValue_part_def ByReference_setValue_part_def
    ByValue_setValuePrivate_def ByReference_setValuePrivate_def
    ByValue_valueWithDefaultOverride_def ByReference_valueWithDefaultOverride_def
    ByValue_valueWithDefaultOverride_part_def ByReference_valueWithDefaultOverride_part_def
    ByValue_defaultValue_def ByReference_defaultValue_def
    ByValue_formerValue_def ByReference_formerValue_def
    ByValue_formerValue_part_def ByReference_formerValue_part_def
  by simp

text \<open>
  C2: the round trip. For a value that \<open>checkValue\<close> accepts and dynamic key parts that
  match the key, \<open>setValue\<close> returns true with a new store, and \<open>value\<close> read from that
  store returns the value converted to a variant and back; it returns the value itself
  when the two conversions are inverse at that value. This holds for both templates, for
  the overloads that take the list of parts and for those that take a single part.
\<close>

theorem setValue_value_roundtrip:
  assumes "checkValue e v"
  shows "(key e parts = Inr k \<longrightarrow>
           (\<exists>s'. ByReference_setValue e s v parts = Inr (True, s') \<and>
              ByValue_setValue e s v parts = Inr (True, s') \<and>
              ByReference_value e s' parts = Inr (convertFromVariant e (convertToVariant e v)) \<and>
              ByValue_value e s' parts = Inr (convertFromVariant e (convertToVariant e v)) \<and>
              (convertFromVariant e (convertToVariant e v) = v \<longrightarrow>
                 ByReference_value e s' parts = Inr v \<and> ByValue_value e s' parts = Inr v))) \<and>
         (key e (dynamicKeyPartToList part) = Inr kp \<longrightarrow>
           (\<exists>s'. ByReference_setValue_part e s v part = Inr (True, s') \<and>
              ByValue_setValue_part e s v part = Inr (True, s') \<and>
              ByReference_value_part e s' part =
                Inr (convertFromVariant e (convertToVariant e v)) \<and>
              ByValue_value_part e s' part =
                Inr (convertFromVariant e (convertToVariant e v)) \<and>
              (convertFromVariant e (convertToVariant e v) = v \<longrightarrow>
                 ByReference_value_part e s' part = Inr v \<and>
                 ByValue_value_part e s' part = Inr v)))"
  using assms
  by (simp add: ByReference_setValue_def ByReference_setValuePrivate_def
      ByValue_setValue_def ByValue_setValuePrivate_def ByValue_value_def
      ByReference_setValue_part_def ByValue_setValue_part_def
      ByReference_value_part_def ByValue_value_part_def valueAsVariant_part_def
      setVariantValuePrivate_def ByReference_value_def valueAsVariant_def
      settingsSet_def settingsGet_def update_conv')

theorem setValue_value_roundtrip_witness:
  "ByReference_setValue timeoutEntry [] 45 [''prod''] = Inr (True, scenarioStore) \<and>
   ByReference_value timeoutEntry scenarioStore [''prod''] = Inr 45 \<and>
   ByReference_setValue_part timeoutEntry [] 45 (Some ''prod'') = Inr (True, scenarioStore) \<and>
   ByReference_value_part timeoutEntry scenarioStore (Some ''prod'') = Inr 45 \<and>
   ByValue_value_part timeoutEntry scenarioStore (Some ''prod'') = Inr 45 \<and>
   ByReference_setValue_part retriesEntry [] 5 None =
     Inr (True, [(''network/retries'', VInt 5)]) \<and>
   ByReference_value_part retriesEntry [(''network/retries'', VInt 5)] None = Inr 5"
proof -
  have c: "checkValue timeoutEntry 45" by (simp add: timeoutEntry_def typedEntry_def)
  have c': "checkValue retriesEntry 5" by (simp add: retriesEntry_def typedEntry_def)
  have k: "key timeoutEntry [''prod''] = Inr ''network/servers/prod/timeout''" by code_simp
  have kp: "key timeoutEntry (dynamicKeyPartToList (Some ''prod'')) =
      Inr ''network/servers/prod/timeout''" by code_simp
  have kr: "key retriesEntry (dynamicKeyPartToList None) = Inr ''network/retries''"
    by code_simp
  have w: "ByReference_setValue timeoutEntry [] 45 [''prod''] = Inr (True, scenarioStore)"
    by code_simp
  have wp: "ByReference_setValue_part timeoutEntry [] 45 (Some ''prod'') =
      Inr (True, scenarioStore)"
    by code_simp
  have wr: "ByReference_setValue_part retriesEntry [] 5 None =
      Inr (True, [(''network/retries'', VInt 5)])"
    by code_simp
  have cv: "convertFromVariant timeoutEntry (convertToVariant timeoutEntry 45) = 45"
    by (simp add: timeoutEntry_def typedEntry_def intFromVariant_def)
  have cr: "convertFromVariant retriesEntry (convertToVariant retriesEntry 5) = 5"
    by (simp add: retriesEntry_def typedEntry_def intFromVariant_def)
  from setValue_value_roundtrip [OF c, where s = "[]" and parts = "[''prod'']"
        and k = "''network/servers/prod/timeout''" and part = "Some ''prod''"
        and kp = "''network/servers/prod/timeout''"]
    setValue_value_roundtrip [OF c', where s = "[]" and part = None and kp = "''network/retries''"]
    k kp kr w wp wr cv cr
  show ?thesis by auto
qed

text \<open>
  C6: the default fallback. When the store holds nothing at the resolved key of the
  entry, \<open>value\<close> returns what \<open>defaultValue\<close> returns: the declared default run through
  \<open>convertFromVariant\<close>. This holds for both templates, for \<open>value\<close> with the list of
  parts and for \<open>value\<close> with a single part (or with none).
\<close>

theorem value_default_fallback:
  "(key e parts = Inr k \<longrightarrow> settingsGet s k = None \<longrightarrow>
      ByReference_value e s parts = Inr (ByReference_defaultValue e) \<and>
      ByValue_value e s parts = Inr (ByValue_defaultValue e)) \<and>
   (key e (dynamicKeyPartToList part) = Inr kp \<longrightarrow> settingsGet s kp = None \<longrightarrow>
      ByReference_value_part e s part = Inr (ByReference_defaultValue e) \<and>
      ByValue_value_part e s part = Inr (ByValue_defaultValue e))"
  by (simp add: ByReference_value_def ByValue_value_def valueAsVariant_def
      ByReference_value_part_def ByValue_value_part_def valueAsVariant_part_def
      ByReference_defaultValue_def ByValue_defaultValue_def defaultValueAsVariant_def)

theorem value_default_fallback_witness:
  "ByReference_value timeoutEntry scenarioStore [''staging''] = Inr 30 \<and>
   ByReference_defaultValue timeoutEntry = 30 \<and>
   ByReference_value_part timeoutEntry scenarioStore (Some ''staging'') = Inr 30 \<and>
   ByValue_value_part timeoutEntry scenarioStore (Some ''staging'') = Inr 30 \<and>
   ByReference_value_part retriesEntry scenarioStore None = Inr 3 \<and>
   ByValue_value_part retriesEntry scenarioStore None = Inr 3"
proof -
  have k: "key timeoutEntry [''staging''] = Inr ''network/servers/staging/timeout''"
    by code_simp
  have kp: "key timeoutEntry (dynamicKeyPartToList (Some ''staging'')) =
      Inr ''network/servers/staging/timeout''"
    by code_simp
  have kr: "key retriesEntry (dynamicKeyPartToList None) = Inr ''network/retries''"
    by code_simp
  have a: "settingsGet scenarioStore ''network/servers/staging/timeout'' = None" by code_simp
  have ar: "settingsGet scenarioStore ''network/retries'' = None" by code_simp
  have d: "ByReference_defaultValue timeoutEntry = 30" by code_simp
  have dv: "ByValue_defaultValue timeoutEntry = 30" by code_simp
  have dr: "ByReference_defaultValue retriesEntry = 3" by code_simp
  have drv: "ByValue_defaultValue retriesEntry = 3" by code_simp
  from value_default_fallback [where e = timeoutEntry and s = scenarioStore and parts = "[''staging'']"
        and k = "''network/servers/staging/timeout''" and part = "Some ''staging''"
        and kp = "''network/servers/staging/timeout''"]
    value_default_fallback [where e = retriesEntry and s = scenarioStore and part = None
        and kp = "''network/retries''"]
  show ?thesis by (simp add: k kp kr a ar d dv dr drv)
qed

text \<open>
  C7: the former value. For an entry with the former-value migration enabled and dynamic
  key parts that match the key: if the store holds nothing at the former key,
  \<open>formerValue\<close> returns exactly what \<open>value\<close> returns; if it holds a variant there,
  \<open>formerValue\<close> returns that variant, converted. This holds for both templates and for
  both overloads of \<open>formerValue\<close>.
\<close>

theorem formerValue_fallback:
  assumes "SaveFormerValue \<in> mOptions e"
  shows "(formerValuekey e parts = Inr fk \<longrightarrow>
            (settingsGet s fk = None \<longrightarrow>
               ByReference_formerValue e s parts = ByReference_value e s parts \<and>
               ByValue_formerValue e s parts = ByValue_value e s parts) \<and>
            (\<forall>w. settingsGet s fk = Some w \<longrightarrow>
               ByReference_formerValue e s parts = Inr (convertFromVariant e w) \<and>
               ByValue_formerValue e s parts = Inr (convertFromVariant e w))) \<and>
         (formerValuekey e (dynamicKeyPartToList part) = Inr fkp \<longrightarrow>
            (settingsGet s fkp = None \<longrightarrow>
               ByReference_formerValue_part e s part = ByReference_value_part e s part \<and>
               ByValue_formerValue_part e s part = ByValue_value_part e s part) \<and>
            (\<forall>w. settingsGet s fkp = Some w \<longrightarrow>
               ByReference_formerValue_part e s part = Inr (convertFromVariant e w) \<and>
               ByValue_formerValue_part e s part = Inr (convertFromVariant e w)))"
  using assms
  by (auto simp: ByReference_formerValue_def ByValue_formerValue_def formerValueAsVariant_def
      ByReference_formerValue_part_def ByValue_formerValue_part_def
      formerValueAsVariant_part_def ByReference_value_part_def ByValue_value_part_def
      valueAsVariant_part_def
      ByReference_value_def ByValue_value_def split: sum.splits)

theorem formerValue_fallback_witness:
  "ByReference_formerValue timeoutEntry formerStore [''prod''] = Inr 20 \<and>
   ByReference_value timeoutEntry formerStore [''prod''] = Inr 30 \<and>
   ByReference_formerValue timeoutEntry scenarioStore [''prod''] = Inr 45 \<and>
   ByReference_formerValue_part timeoutEntry formerStore (Some ''prod'') = Inr 20 \<and>
   ByValue_formerValue_part timeoutEntry formerStore (Some ''prod'') = Inr 20 \<and>
   ByReference_formerValue_part timeoutEntry scenarioStore (Some ''prod'') = Inr 45 \<and>
   ByReference_formerValue_part retriesEntry scenarioStore None = Inr 3"
proof -
  have opt: "SaveFormerValue \<in> mOptions timeoutEntry"
    by (simp add: timeoutEntry_def typedEntry_def timeoutBase_def)
  have optr: "SaveFormerValue \<in> mOptions retriesEntry"
    by (simp add: retriesEntry_def typedEntry_def QgsSettingsEntryBase_section_def)
  have fk: "formerValuekey timeoutEntry [''prod''] =
      Inr ''network/servers/prod/timeout_formervalue''"
    by code_simp
  have fkp: "formerValuekey timeoutEntry (dynamicKeyPartToList (Some ''prod'')) =
      Inr ''network/servers/prod/timeout_formervalue''"
    by code_simp
  have fkr: "formerValuekey retriesEntry (dynamicKeyPartToList None) =
      Inr ''network/retries_formervalue''"
    by code_simp
  have g1: "settingsGet formerStore ''network/servers/prod/timeout_formervalue'' =
      Some (VInt 20)"
    by code_simp
  have g2: "settingsGet scenarioStore ''network/servers/prod/timeout_formervalue'' = None"
    by code_simp
  have g3: "settingsGet scenarioStore ''network/retries_formervalue'' = None"
    by code_simp
  have v1: "ByReference_value timeoutEntry formerStore [''prod''] = Inr 30" by code_simp
  have v2: "ByReference_value timeoutEntry scenarioStore [''prod''] = Inr 45" by code_simp
  have v3: "ByReference_value_part timeoutEntry scenarioStore (Some ''prod'') = Inr 45"
    by code_simp
  have v4: "ByReference_value_part retriesEntry scenarioStore None = Inr 3" by code_simp
  have cv: "convertFromVariant timeoutEntry (VInt 20) = 20"
    by (simp add: timeoutEntry_def typedEntry_def intFromVariant_def)
  from formerValue_fallback [OF opt, where s = formerStore and parts = "[''prod'']"
        and fk = "''network/servers/prod/timeout_formervalue''" and part = "Some ''prod''"
        and fkp = "''network/servers/prod/timeout_formervalue''"]
    formerValue_fallback [OF opt, where s = scenarioStore and parts = "[''prod'']"
        and fk = "''network/servers/prod/timeout_formervalue''" and part = "Some ''prod''"
        and fkp = "''network/servers/prod/timeout_formervalue''"]
    formerValue_fallback [OF optr, where s = scenarioStore and part = None
        and fkp = "''network/retries_formervalue''"]
  show ?thesis by (simp add: fk fkp fkr g1 g2 g3 v1 v2 v3 v4 cv)
qed

section \<open>Properties of the settings tree\<close>

subsection \<open>Registering a child node\<close>

lemma length_registerChildNode [simp]: "length (registerChildNode t p c) = length t"
  by (simp add: registerChildNode_def nodeAt_def)

lemma registerChildNode_fields:
  "mParent (registerChildNode t p c ! i) = mParent (t ! i) \<and>
   mType (registerChildNode t p c ! i) = mType (t ! i) \<and>
   mNodeKey (registerChildNode t p c ! i) = mNodeKey (t ! i) \<and>
   mNamedNodesCount (registerChildNode t p c ! i) = mNamedNodesCount (t ! i)"
  by (cases "i = p") (auto simp: registerChildNode_def nodeAt_def)

lemma find_append_last:
  "P c \<Longrightarrow> (\<forall>x \<in> set xs. P x \<longrightarrow> x = c) \<Longrightarrow> find P (xs @ [c]) = Some c"
  by (induction xs) auto

lemma hasKey_registerChildNode:
  "hasKey (registerChildNode t p c) k x = hasKey t k x"
  using registerChildNode_fields [of t p c x]
  by (simp add: hasKey_def nodeAt_def)

text \<open>
  After a node with key \<open>k\<close> has been appended and registered under \<open>p\<close>, where no
  child had that key, the lookup of \<open>k\<close> under \<open>p\<close> finds the new node.
\<close>

lemma childNode_created:
  assumes p: "p < length t" and none: "childNode t p k = None" and key: "mNodeKey te = k"
  shows "childNode (registerChildNode (t @ [te]) p (length t)) p k = Some (length t)"
proof -
  let ?t' = "registerChildNode (t @ [te]) p (length t)"
  have kids: "mChildrenNodes (?t' ! p) = mChildrenNodes (t ! p) @ [length t]"
    using p by (simp add: registerChildNode_def nodeAt_def nth_append)
  have new: "hasKey ?t' k (length t)"
    using key registerChildNode_fields [of "t @ [te]" p "length t" "length t"]
    by (simp add: hasKey_def nodeAt_def)
  have old: "\<forall>x \<in> set (mChildrenNodes (t ! p)). hasKey ?t' k x \<longrightarrow> x = length t"
  proof (intro ballI impI)
    fix x
    assume x: "x \<in> set (mChildrenNodes (t ! p))" and h: "hasKey ?t' k x"
    from none p have "find (hasKey t k) (mChildrenNodes (t ! p)) = None"
      by (simp add: childNode_def nodeAt_def)
    with x have nk: "\<not> hasKey t k x" by (simp add: find_None_iff)
    show "x = length t"
    proof (rule ccontr)
      assume ne: "x \<noteq> length t"
      from h have "hasKey (t @ [te]) k x" by (simp add: hasKey_registerChildNode)
      with ne have "hasKey t k x"
        by (auto simp: hasKey_def nodeAt_def nth_append split: if_splits)
      with nk show False by simp
    qed
  qed
  from p have "nodeAt ?t' p = Some (?t' ! p)" by (simp add: nodeAt_def)
  then show ?thesis
    by (simp add: childNode_def kids find_append_last [OF new old])
qed

subsection \<open>The invariant of the named nodes count\<close>

lemma countInvariant_new:
  assumes inv: "countInvariant t" and p: "p < length t"
    and par: "mParent te = Some p" and ty: "mType te \<noteq> Root"
    and cnt: "mNamedNodesCount te =
                mNamedNodesCount (t ! p) + (if mType te = NamedList then 1 else 0)"
  shows "countInvariant (registerChildNode (t @ [te]) p (length t))"
  unfolding countInvariant_def
proof (intro allI impI)
  fix i
  assume "i < length (registerChildNode (t @ [te]) p (length t))"
  then have i: "i < Suc (length t)" by simp
  let ?t' = "registerChildNode (t @ [te]) p (length t)"
  have f: "mParent (?t' ! j) = mParent ((t @ [te]) ! j) \<and>
           mType (?t' ! j) = mType ((t @ [te]) ! j) \<and>
           mNamedNodesCount (?t' ! j) = mNamedNodesCount ((t @ [te]) ! j)" for j
    using registerChildNode_fields [of "t @ [te]" p "length t" j] by simp
  show "case mParent (?t' ! i) of
          None \<Rightarrow> mType (?t' ! i) = Root \<and> mNamedNodesCount (?t' ! i) = 0
        | Some q \<Rightarrow>
            q < i \<and> mType (?t' ! i) \<noteq> Root \<and>
            mNamedNodesCount (?t' ! i) =
              mNamedNodesCount (?t' ! q) + (if mType (?t' ! i) = NamedList then 1 else 0)"
  proof (cases "i < length t")
    case True
    with inv have old: "case mParent (t ! i) of
          None \<Rightarrow> mType (t ! i) = Root \<and> mNamedNodesCount (t ! i) = 0
        | Some q \<Rightarrow>
            q < i \<and> mType (t ! i) \<noteq> Root \<and>
            mNamedNodesCount (t ! i) =
              mNamedNodesCount (t ! q) + (if mType (t ! i) = NamedList then 1 else 0)"
      by (simp add: countInvariant_def)
    show ?thesis
    proof (cases "mParent (t ! i)")
      case None
      with old True show ?thesis by (simp add: f nth_append)
    next
      case (Some q)
      with old have "q < i" by simp
      with True have "q < length t" by simp
      with old Some True show ?thesis by (simp add: f nth_append)
    qed
  next
    case False
    with i have "i = length t" by simp
    with p par ty cnt show ?thesis by (simp add: f nth_append)
  qed
qed

lemma countInvariant_root: "countInvariant t \<Longrightarrow> countInvariant (fst (createRootNode t))"
  by (auto simp: countInvariant_def createRootNode_def defaultNode_def nth_append less_Suc_eq
      split: option.splits)

lemma countInvariant_child:
  assumes "countInvariant t" and "createChildNode t p k = Inr (t', c)"
  shows "countInvariant t'"
proof (cases "childNode t p k")
  case None
  with assms(2) have p: "p < length t"
    and t': "t' = registerChildNode
        (t @ [init (defaultNode\<lparr>mType := Standard\<rparr>) p (t ! p) k]) p (length t)"
    by (auto simp: createChildNode_def nodeAt_def Let_def split: if_splits option.splits)
  show ?thesis unfolding t'
    by (rule countInvariant_new [OF assms(1) p]) (simp_all add: init_def defaultNode_def)
next
  case (Some a)
  with assms show ?thesis
    by (auto simp: createChildNode_def split: if_splits option.splits)
qed

lemma countInvariant_named:
  assumes "countInvariant t" and "createNamedListNode t p k options = Inr (t', c)"
  shows "countInvariant t'"
proof (cases "childNode t p k")
  case None
  with assms(2) have p: "p < length t"
    and t': "t' = registerChildNode
        (t @ [initNamedList (init (defaultNode\<lparr>mType := NamedList\<rparr>) p (t ! p) k) options])
        p (length t)"
    by (auto simp: createNamedListNode_def nodeAt_def Let_def split: if_splits option.splits)
  show ?thesis unfolding t'
    by (rule countInvariant_new [OF assms(1) p])
      (simp_all add: init_def initNamedList_def defaultNode_def)
next
  case (Some a)
  with assms show ?thesis
    by (auto simp: createNamedListNode_def split: if_splits option.splits)
qed

lemma reachable_countInvariant: "reachable t \<Longrightarrow> countInvariant t"
proof (induction rule: reachable.induct)
  case reachable_empty
  show ?case by (simp add: countInvariant_def)
next
  case (reachable_root t)
  then show ?case by (simp add: countInvariant_root)
next
  case (reachable_child t p k t' c)
  then show ?case by (simp add: countInvariant_child)
next
  case (reachable_named t p k options t' c)
  then show ?case by (simp add: countInvariant_named)
qed

text \<open>
  Under the invariant the parent handles decrease, so the walk to the root ends within
  any fuel above the handle, and what it counts is the cached count.
\<close>

lemma namedOnPath_count:
  assumes inv: "countInvariant t"
  shows "i < length t \<Longrightarrow> i < fuel \<Longrightarrow> namedOnPath t fuel i = mNamedNodesCount (t ! i)"
proof (induction i arbitrary: fuel rule: less_induct)
  case (less i)
  from less.prems(2) obtain f where fuel: "fuel = Suc f" and f: "i \<le> f"
    by (cases fuel) auto
  from inv less.prems(1) have here: "case mParent (t ! i) of
          None \<Rightarrow> mType (t ! i) = Root \<and> mNamedNodesCount (t ! i) = 0
        | Some q \<Rightarrow>
            q < i \<and> mType (t ! i) \<noteq> Root \<and>
            mNamedNodesCount (t ! i) =
              mNamedNodesCount (t ! q) + (if mType (t ! i) = NamedList then 1 else 0)"
    by (simp add: countInvariant_def)
  show ?case
  proof (cases "mParent (t ! i)")
    case None
    with here less.prems(1) show ?thesis by (simp add: fuel nodeAt_def)
  next
    case (Some q)
    with here have q: "q < i" by simp
    with less.prems(1) f have "q < length t" "q < f" by simp_all
    with less.IH [OF q] have "namedOnPath t f q = mNamedNodesCount (t ! q)" by simp
    with here Some less.prems(1) show ?thesis by (simp add: fuel nodeAt_def)
  qed
qed

subsection \<open>Items, child nodes, child settings and the count\<close>

text \<open>
  C1: for a node whose \<open>namedNodesCount\<close> is \<open>n\<close> (a named list node in particular),
  \<open>items\<close> fails with the exception when the list of the parents' named items does not
  have \<open>n - 1\<close> elements. When it has exactly \<open>n - 1\<close>, \<open>items\<close> succeeds and returns
  the enumeration of the existing items: without repetition, the captures of the stored
  keys that start with the items key filled with the parents' named items.
\<close>

theorem items_arity:
  "(int (length parentsNamedItems) \<noteq> mNamedNodesCount n - 1 \<longrightarrow>
      items n s parentsNamedItems = Inl (QgsSettingsException ArityMismatch)) \<and>
   (int (length parentsNamedItems) = mNamedNodesCount n - 1 \<longrightarrow>
      (\<exists>found. items n s parentsNamedItems = Inr found \<and>
         found = existingItems n s parentsNamedItems \<and>
         distinct found \<and>
         set found =
           capture (completeKeyWithNamedItems (mItemsCompleteKey n) parentsNamedItems) `
             {k \<in> fst ` set s.
                startsWith k
                  (completeKeyWithNamedItems (mItemsCompleteKey n) parentsNamedItems)}))"
  by (auto simp: items_def existingItems_def keysMatching_def Let_def)

theorem items_arity_witness:
  "mType (scenarioTree ! 2) = NamedList \<and>
   items (scenarioTree ! 2) [] [] = Inr [] \<and>
   items (scenarioTree ! 2) scenarioStore [] = Inr [''prod''] \<and>
   items (scenarioTree ! 2) scenarioStore [''x''] = Inl (QgsSettingsException ArityMismatch)"
proof -
  have ty: "mType (scenarioTree ! 2) = NamedList" by code_simp
  have n: "mNamedNodesCount (scenarioTree ! 2) = 1" by code_simp
  have e0: "existingItems (scenarioTree ! 2) [] [] = []" by code_simp
  have e1: "existingItems (scenarioTree ! 2) scenarioStore [] = [''prod'']" by code_simp
  from items_arity [where n = "scenarioTree ! 2" and s = "[]" and parentsNamedItems = "[]"]
    items_arity [where n = "scenarioTree ! 2" and s = scenarioStore
      and parentsNamedItems = "[]"]
    items_arity [where n = "scenarioTree ! 2" and s = scenarioStore
      and parentsNamedItems = "[''x'']"]
  show ?thesis by (simp add: ty n e0 e1)
qed

lemma createChildNode_again:
  assumes "createChildNode t p k = Inr (t', c)"
  shows "createChildNode t' p k = Inr (t', c) \<and> childNode t' p k = Some c"
proof (cases "childNode t p k")
  case (Some a)
  with assms have "t' = t" "c = a" "map_option mType (nodeAt t a) = Some Standard"
    and "nodeAt t p \<noteq> None"
    by (auto simp: createChildNode_def split: option.splits if_splits)
  with Some show ?thesis
    by (auto simp: createChildNode_def)
next
  case None
  let ?te = "init (defaultNode\<lparr>mType := Standard\<rparr>) p (t ! p) k"
  from None assms have p: "p < length t"
    and t': "t' = registerChildNode (t @ [?te]) p (length t)" and c: "c = length t"
    by (auto simp: createChildNode_def nodeAt_def Let_def split: if_splits option.splits)
  have found: "childNode t' p k = Some c"
    unfolding t' c by (rule childNode_created [OF p None]) (simp add: init_def)
  have ty: "map_option mType (nodeAt t' c) = Some Standard"
    using registerChildNode_fields [of "t @ [?te]" p "length t" "length t"]
    by (simp add: t' c nodeAt_def init_def)
  from p have "nodeAt t' p \<noteq> None" by (simp add: t' nodeAt_def)
  with found ty show ?thesis by (auto simp: createChildNode_def)
qed

text \<open>
  C4: when \<open>createChildNode\<close> returns a child for a key, a second call with the same key
  on the resulting tree returns the identical node (the same handle) and leaves the tree
  as it is: it looks the node up instead of creating one. The first call does return a
  node, for a node of the tree, when the key names a Standard child, or names neither a
  child node nor a child setting.
\<close>

theorem createChildNode_twice:
  "(createChildNode t p k = Inr (t', c) \<longrightarrow>
      createChildNode t' p k = Inr (t', c) \<and> childNode t' p k = Some c) \<and>
   (nodeAt t p \<noteq> None \<and>
    (case childNode t p k of
       None \<Rightarrow> childSetting t p k = None
     | Some a \<Rightarrow> map_option mType (nodeAt t a) = Some Standard) \<longrightarrow>
      (\<exists>t'' c'. createChildNode t p k = Inr (t'', c')))"
proof (intro conjI impI)
  assume "nodeAt t p \<noteq> None \<and>
    (case childNode t p k of
       None \<Rightarrow> childSetting t p k = None
     | Some a \<Rightarrow> map_option mType (nodeAt t a) = Some Standard)"
  then show "\<exists>t'' c'. createChildNode t p k = Inr (t'', c')"
    by (auto simp: createChildNode_def Let_def split: option.splits)
next
  assume "createChildNode t p k = Inr (t', c)"
  then show "createChildNode t' p k = Inr (t', c)"
    by (simp add: createChildNode_again)
next
  assume "createChildNode t p k = Inr (t', c)"
  then show "childNode t' p k = Some c"
    by (simp add: createChildNode_again)
qed

theorem createChildNode_twice_witness:
  "createChildNode scenarioRoot 0 ''network'' = Inr (scenarioNetwork, 1) \<and>
   createChildNode scenarioNetwork 0 ''network'' = Inr (scenarioNetwork, 1) \<and>
   childNode scenarioNetwork 0 ''network'' = Some 1"
proof -
  have first: "createChildNode scenarioRoot 0 ''network'' = Inr (scenarioNetwork, 1)"
    by code_simp
  from createChildNode_twice
      [where t = scenarioRoot and p = 0 and k = "''network''" and t' = scenarioNetwork
        and c = 1]
    first
  show ?thesis by simp
qed

text \<open>
  C5: registering a child setting under a key that already names a child node or a child
  setting of the node fails with the exception. So, once an entry has been constructed
  with a local key under a parent node, constructing a second entry with the same local
  key under the same parent fails, and the first entry stays registered under the key.
\<close>

theorem registerChildSetting_collision:
  "(childNode t p k \<noteq> None \<or> childSetting t p k \<noteq> None \<longrightarrow>
      registerChildSetting t p e k = Inl (QgsSettingsException DuplicateKey)) \<and>
   (QgsSettingsEntryBase_parent t k p va desca optsa = Inr (ta, ea) \<longrightarrow>
      childSetting ta p k = Some ea \<and>
      QgsSettingsEntryBase_parent ta k p vb descb optsb =
        Inl (QgsSettingsException DuplicateKey))"
proof (intro conjI impI)
  assume "childNode t p k \<noteq> None \<or> childSetting t p k \<noteq> None"
  then show "registerChildSetting t p e k = Inl (QgsSettingsException DuplicateKey)"
    by (auto simp: registerChildSetting_def childNode_def childSetting_def split: option.splits)
next
  assume a: "QgsSettingsEntryBase_parent t k p va desca optsa = Inr (ta, ea)"
  then have p: "p < length t" and free: "childSetting t p k = None"
    and ta: "ta = t[p := (t ! p)\<lparr>mChildrenSettings := mChildrenSettings (t ! p) @ [(k, ea)]\<rparr>]"
    by (auto simp: QgsSettingsEntryBase_parent_def registerChildSetting_def nodeAt_def Let_def
        split: option.splits if_splits sum.splits)
  from p free have "map_of (mChildrenSettings (t ! p)) k = None"
    by (simp add: childSetting_def nodeAt_def)
  with p show first: "childSetting ta p k = Some ea"
    by (simp add: ta childSetting_def nodeAt_def map_add_def)
  from p have "nodeAt ta p \<noteq> None" by (simp add: ta nodeAt_def)
  with first show "QgsSettingsEntryBase_parent ta k p vb descb optsb =
      Inl (QgsSettingsException DuplicateKey)"
    by (auto simp: QgsSettingsEntryBase_parent_def registerChildSetting_def Let_def
        split: option.splits)
qed

theorem registerChildSetting_collision_witness:
  "QgsSettingsEntryBase_parent scenarioServers ''timeout'' 2 (VInt 30) [] {SaveFormerValue} =
     Inr (scenarioTree, timeoutBase) \<and>
   childSetting scenarioTree 2 ''timeout'' = Some timeoutBase \<and>
   QgsSettingsEntryBase_parent scenarioTree ''timeout'' 2 (VInt 99) [] {} =
     Inl (QgsSettingsException DuplicateKey) \<and>
   registerChildSetting scenarioTree 1 timeoutBase ''servers'' =
     Inl (QgsSettingsException DuplicateKey)"
proof -
  have first: "QgsSettingsEntryBase_parent scenarioServers ''timeout'' 2 (VInt 30) []
      {SaveFormerValue} = Inr (scenarioTree, timeoutBase)"
    by code_simp
  have node: "childNode scenarioTree 1 ''servers'' = Some 2" by code_simp
  from registerChildSetting_collision
      [where t = scenarioServers and k = "''timeout''" and p = 2 and va = "VInt 30"
        and desca = "[]" and optsa = "{SaveFormerValue}" and ta = scenarioTree
        and ea = timeoutBase and vb = "VInt 99" and descb = "[]" and optsb = "{}"]
    registerChildSetting_collision
      [where t = scenarioTree and p = 1 and k = "''servers''" and e = timeoutBase]
    first node
  show ?thesis by simp
qed

text \<open>
  C8: in every tree built by \<open>createRootNode\<close>, \<open>createChildNode\<close> and
  \<open>createNamedListNode\<close>, a root node has no parent and \<open>namedNodesCount\<close> 0, and every
  other node has a parent in the tree and \<open>namedNodesCount\<close> equal to the parent's, plus
  1 if the node is a named list node. So \<open>namedNodesCount\<close> is the number of named list
  nodes on the path from the root to the node, the node included.
\<close>

theorem namedNodesCount_invariant:
  assumes "reachable t" and "i < length t"
  shows "(mType (t ! i) = Root \<longrightarrow>
            mParent (t ! i) = None \<and> mNamedNodesCount (t ! i) = 0) \<and>
         (mType (t ! i) \<noteq> Root \<longrightarrow>
            (\<exists>p < length t. mParent (t ! i) = Some p \<and>
               mNamedNodesCount (t ! i) =
                 mNamedNodesCount (t ! p) + (if mType (t ! i) = NamedList then 1 else 0))) \<and>
         mNamedNodesCount (t ! i) = namedOnPath t (length t) i"
proof -
  from assms(1) have inv: "countInvariant t" by (rule reachable_countInvariant)
  with assms(2) have here: "case mParent (t ! i) of
          None \<Rightarrow> mType (t ! i) = Root \<and> mNamedNodesCount (t ! i) = 0
        | Some q \<Rightarrow>
            q < i \<and> mType (t ! i) \<noteq> Root \<and>
            mNamedNodesCount (t ! i) =
              mNamedNodesCount (t ! q) + (if mType (t ! i) = NamedList then 1 else 0)"
    by (simp add: countInvariant_def)
  from here have root: "mType (t ! i) = Root \<longrightarrow>
      mParent (t ! i) = None \<and> mNamedNodesCount (t ! i) = 0"
    by (auto split: option.splits)
  from here assms(2) have other: "mType (t ! i) \<noteq> Root \<longrightarrow>
      (\<exists>p < length t. mParent (t ! i) = Some p \<and>
         mNamedNodesCount (t ! i) =
           mNamedNodesCount (t ! p) + (if mType (t ! i) = NamedList then 1 else 0))"
    by (auto split: option.splits)
  from namedOnPath_count [OF inv assms(2) assms(2)]
  have "mNamedNodesCount (t ! i) = namedOnPath t (length t) i" by simp
  with root other show ?thesis by simp
qed

theorem namedNodesCount_invariant_witness:
  "mNamedNodesCount (scenarioServers ! 0) = 0 \<and>
   mNamedNodesCount (scenarioServers ! 1) = mNamedNodesCount (scenarioServers ! 0) \<and>
   mNamedNodesCount (scenarioServers ! 2) = mNamedNodesCount (scenarioServers ! 1) + 1 \<and>
   mNamedNodesCount (scenarioServers ! 2) = namedOnPath scenarioServers 3 2"
proof -
  have r0: "reachable scenarioRoot"
    unfolding scenarioRoot_def by (rule reachable_root [OF reachable_empty])
  have "createChildNode scenarioRoot 0 ''network'' = Inr (scenarioNetwork, 1)" by code_simp
  with r0 have r1: "reachable scenarioNetwork" by (rule reachable_child)
  have "createNamedListNode scenarioNetwork 1 ''servers'' {NamedListSelectedItemSetting} =
      Inr (scenarioServers, 2)" by code_simp
  with r1 have r2: "reachable scenarioServers" by (rule reachable_named)
  have len: "length scenarioServers = 3" by code_simp
  have p1: "mParent (scenarioServers ! 1) = Some 0" by code_simp
  have p2: "mParent (scenarioServers ! 2) = Some 1" by code_simp
  have t0: "mType (scenarioServers ! 0) = Root" by code_simp
  have t1: "mType (scenarioServers ! 1) = Standard" by code_simp
  have t2: "mType (scenarioServers ! 2) = NamedList" by code_simp
  from namedNodesCount_invariant [OF r2, of 0] namedNodesCount_invariant [OF r2, of 1]
    namedNodesCount_invariant [OF r2, of 2] len p1 p2 t0 t1 t2
  show ?thesis by simp
qed

end
